theory Spec2Isabelle
  imports Complex_Main "HOL-Library.Sublist" "HOL-Library.Product_Lexorder"
begin

section \<open>Data model\<close>

text \<open>
  A patent is the dictionary built by the data loader: every key is always present.
  A search result is a copy of that dictionary with the extra key
  \<^verbatim>\<open>similarity_score\<close>, hence a record extension. A Python string is represented by
  the bytes of its UTF-8 encoding: equality, \<^verbatim>\<open>startswith\<close> and \<^verbatim>\<open>in\<close> on
  strings are equality, prefix and contiguous sublist on the encodings. Scores are the
  finite floating-point values of the similarity computation, read as the real numbers
  they denote (only their order and equality matter for ranking).
\<close>

type_synonym vector = "real list"

record patent =
  document_number :: string
  title :: string
  abstract :: string
  claims :: "string list"
  detailed_description :: "string list"
  classification_code :: string
  bibtext_citation :: string
  searchable_text :: string

record search_result = patent +
  similarity_score :: real

text \<open>
  The engine object: \<^verbatim>\<open>self.patents\<close>, \<^verbatim>\<open>self.model\<close> (the sentence
  transformer, used only through \<^verbatim>\<open>self.model.encode([query])[0]\<close>, an external
  function from text to vector) and \<^verbatim>\<open>self.embeddings\<close>, which is \<^verbatim>\<open>None\<close>
  until created or loaded and otherwise a matrix with one row per embedded text.
\<close>

record engine =
  patents :: "patent list"
  model :: "string \<Rightarrow> vector"
  embeddings :: "vector list option"

text \<open>
  The functions the engine calls from Python, sklearn and numpy. They are not part of
  the repository, so they are parameters here, and every theorem holds for each
  value of them:
  \<^item> \<open>str_lower\<close> is \<^verbatim>\<open>str.lower\<close>, which folds every cased letter of Unicode;
  \<^item> \<open>cosine_similarity\<close> gives the score that sklearn computes, in floating point,
    for a query vector against one row of the matrix;
  \<^item> \<open>argsort_tie\<close> stands for the choice \<^verbatim>\<open>np.argsort\<close> makes among equal
    values: its default sort kind is not stable, so the order of two indices with
    equal values is not specified. For an array \<open>a\<close> the index with the smaller
    \<open>argsort_tie a i\<close> comes first;
  \<^item> \<open>np_mean\<close> is \<^verbatim>\<open>np.mean\<close>, which returns a rounded floating-point value.
\<close>

record library =
  str_lower :: "string \<Rightarrow> string"
  cosine_similarity :: "vector \<Rightarrow> vector \<Rightarrow> real"
  argsort_tie :: "real list \<Rightarrow> nat \<Rightarrow> nat"
  np_mean :: "real list \<Rightarrow> real"

text \<open>
  The exceptions the search path can raise: the \<^verbatim>\<open>ValueError\<close> of
  \<^verbatim>\<open>search\<close> when there are no embeddings, the \<^verbatim>\<open>ValueError\<close> that
  \<^verbatim>\<open>cosine_similarity\<close> raises for a matrix without rows, and the
  \<^verbatim>\<open>IndexError\<close> of \<^verbatim>\<open>self.patents[idx]\<close> when the embedding matrix has more
  rows than there are patents.
\<close>

datatype error = NoEmbeddingsError | EmptyMatrixError | IndexError

section \<open>Python string operations\<close>

text \<open>\<^verbatim>\<open>s.startswith(p)\<close>\<close>

fun startswith :: "string \<Rightarrow> string \<Rightarrow> bool" where
  "startswith s [] = True"
| "startswith [] (c # p) = False"
| "startswith (d # s) (c # p) = (d = c \<and> startswith s p)"

text \<open>\<^verbatim>\<open>sub in s\<close>\<close>

fun contains :: "string \<Rightarrow> string \<Rightarrow> bool" where
  "contains [] sub = (sub = [])"
| "contains (c # s) sub = (startswith (c # s) sub \<or> contains s sub)"

section \<open>The filters\<close>

text \<open>
  \<^verbatim>\<open>if classification_filter:\<close> and \<^verbatim>\<open>if title_keyword:\<close> test truthiness:
  \<^verbatim>\<open>None\<close> and the empty string skip the check. Each of the two functions below
  says when the corresponding block reaches its \<^verbatim>\<open>continue\<close>.
\<close>

definition classification_rejects :: "string option \<Rightarrow> patent \<Rightarrow> bool" where
  "classification_rejects classification_filter p =
     (case classification_filter of
        None \<Rightarrow> False
      | Some f \<Rightarrow> f \<noteq> [] \<and> \<not> startswith (classification_code p) f)"

definition title_rejects :: "library \<Rightarrow> string option \<Rightarrow> patent \<Rightarrow> bool" where
  "title_rejects L title_keyword p =
     (case title_keyword of
        None \<Rightarrow> False
      | Some k \<Rightarrow> k \<noteq> [] \<and> \<not> contains (str_lower L (title p)) (str_lower L k))"

text \<open>The loop over \<^verbatim>\<open>enumerate(self.patents)\<close>, appending to \<^verbatim>\<open>valid_indices\<close>.\<close>

fun filter_loop ::
  "library \<Rightarrow> string option \<Rightarrow> string option \<Rightarrow> (nat \<times> patent) list \<Rightarrow> nat list
     \<Rightarrow> nat list" where
  "filter_loop L cf tk [] valid_indices = valid_indices"
| "filter_loop L cf tk ((idx, p) # rest) valid_indices =
     (if classification_rejects cf p then filter_loop L cf tk rest valid_indices
      else if title_rejects L tk p then filter_loop L cf tk rest valid_indices
      else filter_loop L cf tk rest (valid_indices @ [idx]))"

text \<open>\<^verbatim>\<open>_apply_filters\<close>: \<^verbatim>\<open>None\<close> when both filters are \<^verbatim>\<open>None\<close>.\<close>

definition apply_filters ::
  "library \<Rightarrow> engine \<Rightarrow> string option \<Rightarrow> string option \<Rightarrow> nat list option" where
  "apply_filters L e classification_filter title_keyword =
     (if classification_filter = None \<and> title_keyword = None then None
      else Some (filter_loop L classification_filter title_keyword
                   (enumerate 0 (patents e)) []))"

section \<open>Ranking\<close>

text \<open>
  \<^verbatim>\<open>np.argsort(a)\<close>: the indices of \<open>a\<close> in ascending order of the values, with
  the order among equal values given by the parameter \<open>tie\<close> (and by the index where
  \<open>tie\<close> is equal too). Every function \<open>tie\<close> gives a permutation of the indices that
  sorts \<open>a\<close>, and every such permutation is given by some \<open>tie\<close>, for instance the
  position of the index in it.
\<close>

definition argsort :: "(real list \<Rightarrow> nat \<Rightarrow> nat) \<Rightarrow> real list \<Rightarrow> nat list" where
  "argsort tie a = sort_key (\<lambda>i. (a ! i, tie a i)) [0..<length a]"

text \<open>\<^verbatim>\<open>patent = self.patents[idx].copy(); patent['similarity_score'] = score\<close>\<close>

definition with_score :: "patent \<Rightarrow> real \<Rightarrow> search_result" where
  "with_score p s =
     \<lparr>document_number = document_number p, title = title p, abstract = abstract p,
      claims = claims p, detailed_description = detailed_description p,
      classification_code = classification_code p,
      bibtext_citation = bibtext_citation p, searchable_text = searchable_text p,
      similarity_score = s\<rparr>"

text \<open>\<^verbatim>\<open>valid_indices is not None and idx not in valid_indices\<close>\<close>

definition skipped :: "nat list option \<Rightarrow> nat \<Rightarrow> bool" where
  "skipped valid_indices idx =
     (case valid_indices of None \<Rightarrow> False | Some vs \<Rightarrow> idx \<notin> set vs)"

text \<open>
  The loop \<^verbatim>\<open>for idx in sorted_indices\<close> of \<^verbatim>\<open>search\<close>. The test
  \<^verbatim>\<open>len(results) >= top_k\<close> comes after the append, as in the source.
\<close>

fun search_loop ::
  "patent list \<Rightarrow> real list \<Rightarrow> nat list option \<Rightarrow> int \<Rightarrow> nat list
     \<Rightarrow> search_result list \<Rightarrow> error + search_result list" where
  "search_loop ps similarities valid_indices top_k [] results = Inr results"
| "search_loop ps similarities valid_indices top_k (idx # rest) results =
     (if skipped valid_indices idx
      then search_loop ps similarities valid_indices top_k rest results
      else if length ps \<le> idx then Inl IndexError
      else
        let results' = results @ [with_score (ps ! idx) (similarities ! idx)]
        in if top_k \<le> int (length results') then Inr results'
           else search_loop ps similarities valid_indices top_k rest results')"

text \<open>
  \<^verbatim>\<open>search\<close>. The call
  \<^verbatim>\<open>cosine_similarity([query_embedding], self.embeddings)[0]\<close> raises when the
  matrix has no rows and otherwise returns the scores of all rows. The filters are
  applied after it, as in the source.
\<close>

definition search ::
  "library \<Rightarrow> engine \<Rightarrow> string \<Rightarrow> int \<Rightarrow> string option \<Rightarrow> string option
     \<Rightarrow> error + search_result list" where
  "search L e query top_k classification_filter title_keyword =
     (case embeddings e of
        None \<Rightarrow> Inl NoEmbeddingsError
      | Some embs \<Rightarrow>
          let query_embedding = model e query
          in if embs = [] then Inl EmptyMatrixError
             else
               let similarities = map (cosine_similarity L query_embedding) embs;
                   valid_indices = apply_filters L e classification_filter title_keyword;
                   sorted_indices = rev (argsort (argsort_tie L) similarities)
               in search_loop (patents e) similarities valid_indices top_k sorted_indices [])"

section \<open>Similar patents\<close>

text \<open>The lookup loop of \<^verbatim>\<open>search_by_patent_id\<close>: the first match wins.\<close>

fun find_reference :: "patent list \<Rightarrow> string \<Rightarrow> patent option" where
  "find_reference [] dn = None"
| "find_reference (p # ps) dn =
     (if document_number p = dn then Some p else find_reference ps dn)"

text \<open>The slice \<^verbatim>\<open>xs[:k]\<close>; a negative \<open>k\<close> counts from the end.\<close>

definition slice_to :: "'a list \<Rightarrow> int \<Rightarrow> 'a list" where
  "slice_to xs k = (if 0 \<le> k then take (nat k) xs else take (length xs - nat (- k)) xs)"

definition search_by_patent_id ::
  "library \<Rightarrow> engine \<Rightarrow> string \<Rightarrow> int \<Rightarrow> error + search_result list" where
  "search_by_patent_id L e dn top_k =
     (case find_reference (patents e) dn of
        None \<Rightarrow> Inr []
      | Some reference_patent \<Rightarrow>
          (case search L e (searchable_text reference_patent) (top_k + 1) None None of
             Inl err \<Rightarrow> Inl err
           | Inr results \<Rightarrow>
               Inr (slice_to (filter (\<lambda>r. document_number r \<noteq> dn) results) top_k)))"

section \<open>Statistics\<close>

text \<open>
  The returned dictionary maps key names to Python values. The average is what
  \<^verbatim>\<open>np.mean\<close> returns on the list of scores; \<^verbatim>\<open>np.max\<close> and \<^verbatim>\<open>np.min\<close>
  return an element of the list, found by a left-to-right scan.
\<close>

datatype pyval = PyInt int | PyFloat real

definition get_search_statistics :: "library \<Rightarrow> search_result list \<Rightarrow> (string \<rightharpoonup> pyval)" where
  "get_search_statistics L results =
     (case map similarity_score results of
        [] \<Rightarrow> [''count'' \<mapsto> PyInt 0]
      | s # scores \<Rightarrow>
          [''count'' \<mapsto> PyInt (int (length results)),
           ''avg_similarity'' \<mapsto> PyFloat (np_mean L (s # scores)),
           ''max_similarity'' \<mapsto> PyFloat (foldl max s scores),
           ''min_similarity'' \<mapsto> PyFloat (foldl min s scores)])"

section \<open>Specification-level notions\<close>

text \<open>
  The indices the loop of \<^verbatim>\<open>search\<close> appends when it starts with \<open>n\<close> results
  already collected: the first entries of the index list that are not skipped. At
  least one entry is taken, because the length test follows the append.
\<close>

definition chosen :: "nat list option \<Rightarrow> int \<Rightarrow> nat list \<Rightarrow> nat \<Rightarrow> nat list" where
  "chosen valid top_k idxs n =
     take (nat (max 1 (top_k - int n))) (filter (\<lambda>i. \<not> skipped valid i) idxs)"

text \<open>
  The ranking as the specification words it: a sort of the admissible indices by the
  key (minus score, index), so that equal scores come in ascending index order.
\<close>

definition spec_ranking :: "real list \<Rightarrow> nat list \<Rightarrow> nat list" where
  "spec_ranking similarities admissible = sort_key (\<lambda>i. (- similarities ! i, i)) admissible"

section \<open>Example library and corpora\<close>

text \<open>
  One value of the library parameters, for the examples. Lowering moves the letters A
  to Z to a to z and leaves every other byte unchanged, as \<^verbatim>\<open>str.lower\<close> does on
  ASCII text. The similarity is the dot product, which is the cosine on vectors of
  length one. The tie function is constant, so that the sort is the stable one: among
  equal values the smaller index comes first. The mean is the exact quotient.
\<close>

definition ascii_lower_char :: "char \<Rightarrow> char" where
  "ascii_lower_char c =
     (case map_of (zip ''ABCDEFGHIJKLMNOPQRSTUVWXYZ'' ''abcdefghijklmnopqrstuvwxyz'') c of
        None \<Rightarrow> c
      | Some d \<Rightarrow> d)"

definition ascii_lower :: "string \<Rightarrow> string" where
  "ascii_lower s = map ascii_lower_char s"

fun dot :: "vector \<Rightarrow> vector \<Rightarrow> real" where
  "dot (x # xs) (y # ys) = x * y + dot xs ys"
| "dot _ _ = 0"

definition stable_tie :: "real list \<Rightarrow> nat \<Rightarrow> nat" where
  "stable_tie a i = 0"

definition exact_mean :: "real list \<Rightarrow> real" where
  "exact_mean scores = sum_list scores / real (length scores)"

definition example_library :: library where
  "example_library = \<lparr>str_lower = ascii_lower, cosine_similarity = dot,
     argsort_tie = stable_tie, np_mean = exact_mean\<rparr>"

text \<open>
  Three documents A, B, C with the vectors \<open>[1,0]\<close>, \<open>[0,1]\<close>, \<open>[1,0]\<close> and
  the classification codes B60B, F16H, B60B; every query is embedded as \<open>[1,0]\<close>.
\<close>

definition patent_A :: patent where
  "patent_A = \<lparr>document_number = ''A'', title = ''Wheel hub'', abstract = [], claims = [],
     detailed_description = [], classification_code = ''B60B'', bibtext_citation = ''N/A'',
     searchable_text = ''Title: Wheel hub''\<rparr>"

definition patent_B :: patent where
  "patent_B = \<lparr>document_number = ''B'', title = ''Gear box'', abstract = [], claims = [],
     detailed_description = [], classification_code = ''F16H'', bibtext_citation = ''N/A'',
     searchable_text = ''Title: Gear box''\<rparr>"

definition patent_C :: patent where
  "patent_C = \<lparr>document_number = ''C'', title = ''Wheel rim'', abstract = [], claims = [],
     detailed_description = [], classification_code = ''B60B'', bibtext_citation = ''N/A'',
     searchable_text = ''Title: Wheel rim''\<rparr>"

definition abc_engine :: engine where
  "abc_engine = \<lparr>patents = [patent_A, patent_B, patent_C], model = (\<lambda>text. [1, 0]),
     embeddings = Some [[1, 0], [0, 1], [1, 0]]\<rparr>"

definition unloaded_engine :: engine where
  "unloaded_engine = \<lparr>patents = [patent_A, patent_B, patent_C], model = (\<lambda>text. [1, 0]),
     embeddings = None\<rparr>"

text \<open>
  A corpus in which two patents carry the document number A and rank first.
\<close>

definition patent_A2 :: patent where
  "patent_A2 = \<lparr>document_number = ''A'', title = ''Wheel hub cap'', abstract = [], claims = [],
     detailed_description = [], classification_code = ''B60B'', bibtext_citation = ''N/A'',
     searchable_text = ''Title: Wheel hub cap''\<rparr>"

definition twin_engine :: engine where
  "twin_engine = \<lparr>patents = [patent_A, patent_A2, patent_B], model = (\<lambda>text. [1, 0]),
     embeddings = Some [[1, 0], [1, 0], [0, 1]]\<rparr>"

section \<open>Auxiliary lemmas\<close>

subsection \<open>The loop of search\<close>

lemma search_loop_eq:
  "search_loop ps sims valid top_k idxs acc =
     (if \<forall>i \<in> set (chosen valid top_k idxs (length acc)). i < length ps
      then Inr (acc @ map (\<lambda>i. with_score (ps ! i) (sims ! i)) (chosen valid top_k idxs (length acc)))
      else Inl IndexError)"
proof (induction idxs arbitrary: acc)
  case Nil
  show ?case by (simp add: chosen_def)
next
  case (Cons idx rest)
  show ?case
  proof (cases "skipped valid idx")
    case True
    then show ?thesis using Cons.IH [of acc] by (simp add: chosen_def)
  next
    case False
    note adm = this
    show ?thesis
    proof (cases "length ps \<le> idx")
      case True
      have "idx \<in> set (chosen valid top_k (idx # rest) (length acc))"
        using adm by (simp add: chosen_def take_Cons')
      then have "\<not> (\<forall>i \<in> set (chosen valid top_k (idx # rest) (length acc)). i < length ps)"
        using True by (meson not_less)
      with True adm show ?thesis by simp
    next
      case False
      note inr = this
      show ?thesis
      proof (cases "top_k \<le> int (length acc) + 1")
        case True
        then have "nat (max 1 (top_k - int (length acc))) = 1" by simp
        then have "chosen valid top_k (idx # rest) (length acc) = [idx]"
          using adm by (simp add: chosen_def)
        with True adm inr show ?thesis by simp
      next
        case False
        then have n: "nat (max 1 (top_k - int (length acc))) = Suc (nat (max 1 (top_k - int (length acc) - 1)))"
          by simp
        have c: "chosen valid top_k (idx # rest) (length acc) =
                 idx # chosen valid top_k rest (Suc (length acc))"
          using adm unfolding chosen_def n by (simp add: algebra_simps)
        show ?thesis
          using False adm inr Cons.IH [of "acc @ [with_score (ps ! idx) (sims ! idx)]"]
          by (simp add: c Let_def)
      qed
    qed
  qed
qed

lemma search_loop_not_no_embeddings:
  "search_loop ps sims valid top_k idxs acc \<noteq> Inl NoEmbeddingsError"
  by (simp add: search_loop_eq)

subsection \<open>The ranking\<close>

lemma set_argsort: "set (argsort tie a) = {0..<length a}"
  by (simp add: argsort_def)

lemma distinct_argsort: "distinct (argsort tie a)"
  by (simp add: argsort_def)

lemma sorted_argsort: "sorted_wrt (\<lambda>i j. a ! i \<le> a ! j) (argsort tie a)"
proof -
  have "sorted (map (\<lambda>i. (a ! i, tie a i)) (argsort tie a))"
    unfolding argsort_def by (rule sorted_sort_key)
  then have "sorted_wrt (\<lambda>i j. (a ! i, tie a i) \<le> (a ! j, tie a j)) (argsort tie a)"
    by (simp add: sorted_map)
  then show ?thesis
    by (rule sorted_wrt_mono_rel [rotated]) (auto simp: less_eq_prod_def)
qed

text \<open>
  Every order that sorts the array is the result of \<open>argsort\<close> for some tie
  function: the position of each index in that order.
\<close>

lemma argsort_any_order:
  assumes "distinct p" and "set p = {0..<length a}"
    and "sorted (map (\<lambda>i. a ! i) p)"
  shows "argsort (\<lambda>b i. length (takeWhile (\<lambda>j. j \<noteq> i) p)) a = p"
proof -
  let ?pos = "\<lambda>i. length (takeWhile (\<lambda>j. j \<noteq> i) p)"
  let ?key = "\<lambda>i. (a ! i, ?pos i)"
  have pos: "?pos (p ! m) = m" if "m < length p" for m
  proof -
    have "takeWhile (\<lambda>j. j \<noteq> p ! m) p = take m p"
    proof (rule takeWhile_eq_take_P_nth)
      fix i assume "i < m" "i < length p"
      then show "p ! i \<noteq> p ! m"
        using assms(1) that by (simp add: nth_eq_iff_index_eq)
    next
      show "\<not> p ! m \<noteq> p ! m" by simp
    qed
    then show ?thesis using that by simp
  qed
  have inj: "inj_on ?key (set p)"
  proof (rule inj_onI)
    fix x y assume "x \<in> set p" "y \<in> set p" "?key x = ?key y"
    then obtain m n where "m < length p" "x = p ! m" "n < length p" "y = p ! n" "?pos x = ?pos y"
      by (auto simp: in_set_conv_nth)
    then show "x = y" by (simp add: pos)
  qed
  have srt: "sorted (map ?key p)"
    unfolding sorted_iff_nth_mono
  proof (intro allI impI)
    fix m n assume mn: "m \<le> n" "n < length (map ?key p)"
    then have "a ! (p ! m) \<le> a ! (p ! n)"
      using assms(3) by (auto simp: sorted_iff_nth_mono dest: spec [of _ m])
    with mn show "map ?key p ! m \<le> map ?key p ! n"
      by (simp add: pos less_eq_prod_def)
  qed
  have "sort_key ?key [0..<length a] = p"
  proof (rule map_sorted_distinct_set_unique [where f = ?key])
    show "inj_on ?key (set (sort_key ?key [0..<length a]) \<union> set p)"
      using inj assms(2) by simp
    show "sorted (map ?key (sort_key ?key [0..<length a]))" by simp
    show "distinct (map ?key (sort_key ?key [0..<length a]))"
      using inj assms(2) by (simp add: distinct_map)
    show "sorted (map ?key p)" by (rule srt)
    show "distinct (map ?key p)"
      using inj assms(1) by (simp add: distinct_map)
    show "set (sort_key ?key [0..<length a]) = set p"
      using assms(2) by simp
  qed
  then show ?thesis by (simp add: argsort_def)
qed

lemma skipped_iff: "skipped valid i \<longleftrightarrow> \<not> (\<forall>vs. valid = Some vs \<longrightarrow> i \<in> set vs)"
  by (cases valid) (simp_all add: skipped_def)

lemma ranking_properties:
  assumes "ranking = filter (\<lambda>i. \<not> skipped valid i) (rev (argsort tie a))"
  shows "distinct ranking"
    and "set ranking = {i. i < length a \<and> (\<forall>vs. valid = Some vs \<longrightarrow> i \<in> set vs)}"
    and "sorted_wrt (\<lambda>i j. a ! j \<le> a ! i) ranking"
proof -
  show "distinct ranking"
    unfolding assms by (simp add: distinct_argsort)
  show "set ranking = {i. i < length a \<and> (\<forall>vs. valid = Some vs \<longrightarrow> i \<in> set vs)}"
    unfolding assms by (auto simp: set_argsort skipped_iff)
  have "sorted_wrt (\<lambda>i j. a ! j \<le> a ! i) (rev (argsort tie a))"
    using sorted_argsort [of a tie] by (simp add: sorted_wrt_rev)
  then show "sorted_wrt (\<lambda>i j. a ! j \<le> a ! i) ranking"
    unfolding assms by (rule sorted_wrt_filter)
qed

subsection \<open>The result of search\<close>

lemma search_eq:
  assumes "embeddings e = Some embs" and "embs \<noteq> []" and "length embs = length (patents e)"
  shows "search L e query top_k cf tk =
     Inr (map (\<lambda>i. with_score (patents e ! i) (map (cosine_similarity L (model e query)) embs ! i))
            (take (nat (max 1 top_k))
               (filter (\<lambda>i. \<not> skipped (apply_filters L e cf tk) i)
                  (rev (argsort (argsort_tie L) (map (cosine_similarity L (model e query)) embs))))))"
proof -
  let ?sims = "map (cosine_similarity L (model e query)) embs"
  let ?valid = "apply_filters L e cf tk"
  let ?sorted = "rev (argsort (argsort_tie L) ?sims)"
  have c: "chosen ?valid top_k ?sorted 0 =
           take (nat (max 1 top_k)) (filter (\<lambda>i. \<not> skipped ?valid i) ?sorted)"
    by (simp add: chosen_def)
  have "set (chosen ?valid top_k ?sorted 0) \<subseteq> set (argsort (argsort_tie L) ?sims)"
    unfolding chosen_def by (rule subset_trans [OF set_take_subset]) auto
  then have r: "\<forall>i \<in> set (chosen ?valid top_k ?sorted 0). i < length (patents e)"
    using assms(3) by (auto simp: set_argsort)
  have "search L e query top_k cf tk = search_loop (patents e) ?sims ?valid top_k ?sorted []"
    using assms(1,2) by (simp add: search_def Let_def)
  also have "\<dots> = Inr (map (\<lambda>i. with_score (patents e ! i) (?sims ! i))
                        (chosen ?valid top_k ?sorted 0))"
    using r by (subst search_loop_eq) simp
  finally show ?thesis by (simp only: c)
qed

lemma search_length:
  assumes "search L e query top_k cf tk = Inr results"
  shows "length results \<le> nat (max 1 top_k)"
proof (cases "embeddings e")
  case None
  with assms show ?thesis by (simp add: search_def)
next
  case (Some embs)
  let ?sims = "map (cosine_similarity L (model e query)) embs"
  let ?sorted = "rev (argsort (argsort_tie L) ?sims)"
  from assms Some
  have "search_loop (patents e) ?sims (apply_filters L e cf tk) top_k ?sorted [] = Inr results"
    by (simp add: search_def Let_def split: if_splits)
  then have "results = map (\<lambda>i. with_score (patents e ! i) (?sims ! i))
               (chosen (apply_filters L e cf tk) top_k ?sorted 0)"
    by (simp add: search_loop_eq split: if_splits)
  then show ?thesis by (simp add: chosen_def)
qed

lemma similarity_score_with_score: "similarity_score (with_score p s) = s"
  by (simp add: with_score_def)

lemma document_number_with_score: "document_number (with_score p s) = document_number p"
  by (simp add: with_score_def)

subsection \<open>Similar patents\<close>

lemma find_reference_None:
  "find_reference ps dn = None \<longleftrightarrow> dn \<notin> document_number ` set ps"
  by (induction ps) auto

lemma find_reference_Some_nonempty:
  "find_reference ps dn = Some p \<Longrightarrow> ps \<noteq> []"
  by (cases ps) simp_all

lemma slice_to_filter:
  assumes "length candidates \<le> nat (max 1 (top_k + 1))"
  shows "(\<forall>r \<in> set (slice_to (filter (\<lambda>r. document_number r \<noteq> X) candidates) top_k).
             document_number r \<noteq> X)
         \<and> length (slice_to (filter (\<lambda>r. document_number r \<noteq> X) candidates) top_k) \<le> nat top_k"
proof (cases "0 \<le> top_k")
  case True
  then show ?thesis by (auto simp: slice_to_def dest: in_set_takeD)
next
  case False
  then have "length candidates \<le> 1" using assms by simp
  moreover have "length (filter (\<lambda>r. document_number r \<noteq> X) candidates) \<le> length candidates"
    by (rule length_filter_le)
  ultimately have "length (filter (\<lambda>r. document_number r \<noteq> X) candidates) \<le> 1"
    by (rule order_trans [rotated])
  moreover have "1 \<le> nat (- top_k)"
    using False by simp
  ultimately have "length (filter (\<lambda>r. document_number r \<noteq> X) candidates) - nat (- top_k) = 0"
    by simp
  with False show ?thesis by (simp add: slice_to_def)
qed

lemma shortfall_step:
  assumes "find_reference (patents e) X = Some p"
    and "search L e (searchable_text p) (top_k + 1) None None = Inr candidates"
    and "2 \<le> length (filter (\<lambda>r. document_number r = X) candidates)"
  shows "\<exists>results. search_by_patent_id L e X top_k = Inr results \<and> int (length results) < top_k"
proof -
  define results where "results = slice_to (filter (\<lambda>r. document_number r \<noteq> X) candidates) top_k"
  have r: "search_by_patent_id L e X top_k = Inr results"
    unfolding results_def using assms(1,2) by (simp add: search_by_patent_id_def)
  have l: "length candidates \<le> nat (max 1 (top_k + 1))"
    using assms(2) by (rule search_length)
  have "length (filter (\<lambda>r. document_number r = X) candidates)
          + length (filter (\<lambda>r. \<not> document_number r = X) candidates) = length candidates"
    by (rule sum_length_filter_compl)
  with assms(3) have f: "length (filter (\<lambda>r. document_number r \<noteq> X) candidates) + 2 \<le> length candidates"
    by simp
  with l have k: "1 \<le> top_k"
    by (cases "1 \<le> top_k") simp_all
  from f l k have "int (length (filter (\<lambda>r. document_number r \<noteq> X) candidates)) < top_k"
    by simp
  moreover have "length results \<le> length (filter (\<lambda>r. document_number r \<noteq> X) candidates)"
    unfolding results_def using k by (simp add: slice_to_def)
  ultimately have "int (length results) < top_k" by simp
  with r show ?thesis by blast
qed

subsection \<open>Strings and filters\<close>









subsection \<open>Statistics\<close>

lemma foldl_max: "foldl max (s :: real) xs = Max (set (s # xs))"
proof -
  have "(\<lambda>x a. max a x) = (max :: real \<Rightarrow> real \<Rightarrow> real)"
    by (intro ext) (rule max.commute)
  then show ?thesis
    by (simp only: Max.set_eq_fold foldl_conv_fold)
qed

lemma foldl_min: "foldl min (s :: real) xs = Min (set (s # xs))"
proof -
  have "(\<lambda>x a. min a x) = (min :: real \<Rightarrow> real \<Rightarrow> real)"
    by (intro ext) (rule min.commute)
  then show ?thesis
    by (simp only: Min.set_eq_fold foldl_conv_fold)
qed

subsection \<open>The examples, evaluated\<close>

lemma abc_embeddings: "embeddings abc_engine = Some [[1, 0], [0, 1], [1, 0]]"
  by (simp add: abc_engine_def)

lemma abc_length: "length [[1, 0], [0, 1], [1::real, 0]] = length (patents abc_engine)"
  by (simp add: abc_engine_def)

lemma abc_search_1:
  "search example_library abc_engine ''wheel'' 1 None None = Inr [with_score patent_C 1]"
  by (simp add: search_def example_library_def abc_engine_def argsort_def apply_filters_def
        skipped_def upt_rec stable_tie_def less_eq_prod_def Let_def)

lemma abc_search_2:
  "search example_library abc_engine ''wheel'' 2 None None
     = Inr [with_score patent_C 1, with_score patent_A 1]"
  by (simp add: search_def example_library_def abc_engine_def argsort_def apply_filters_def
        skipped_def upt_rec stable_tie_def less_eq_prod_def Let_def)

lemma abc_search_by_A:
  "search_by_patent_id example_library abc_engine ''A'' 1 = Inr [with_score patent_C 1]"
  by (simp add: search_by_patent_id_def search_def example_library_def abc_engine_def argsort_def
        apply_filters_def skipped_def upt_rec stable_tie_def less_eq_prod_def Let_def slice_to_def
        patent_A_def patent_B_def patent_C_def with_score_def)

lemma twin_search_by_A:
  "search_by_patent_id example_library twin_engine ''A'' 1 = Inr []"
  by (simp add: search_by_patent_id_def search_def example_library_def twin_engine_def argsort_def
        apply_filters_def skipped_def upt_rec stable_tie_def less_eq_prod_def Let_def slice_to_def
        patent_A_def patent_A2_def patent_B_def with_score_def)

lemma twin_candidates:
  "search example_library twin_engine (searchable_text patent_A) (1 + 1) None None
     = Inr [with_score patent_A2 1, with_score patent_A 1]"
  by (simp add: search_def example_library_def twin_engine_def argsort_def apply_filters_def
        skipped_def upt_rec stable_tie_def less_eq_prod_def Let_def)

lemma twin_others:
  "nat 1 \<le> length (filter (\<lambda>p. document_number p \<noteq> ''A'') (patents twin_engine))"
  by (simp add: twin_engine_def patent_A_def patent_A2_def patent_B_def)



lemma two_results_statistics:
  "get_search_statistics example_library [with_score patent_C 1, with_score patent_B 0] =
     [''count'' \<mapsto> PyInt 2, ''avg_similarity'' \<mapsto> PyFloat (1 / 2),
      ''max_similarity'' \<mapsto> PyFloat 1, ''min_similarity'' \<mapsto> PyFloat 0]"
  by (simp add: get_search_statistics_def example_library_def exact_mean_def with_score_def)

section \<open>Ordering of the results\<close>

text \<open>
  Claim C1, as the code has it. On a corpus that is not empty and has one embedding
  per patent, \<open>search\<close> returns the patents at a list of indices, each with its
  score, and the scores never increase along the result. The indices are a prefix of
  a ranking of the admissible indices (all indices when no filter is given, the
  indices the filters return otherwise): each admissible index once, in descending
  order of score; they are its first \<open>top_k\<close> entries when \<open>top_k\<close> is at least
  one. The order of two results with equal scores is the one \<^verbatim>\<open>np.argsort\<close>
  happens to give, reversed; nothing is said about it.
\<close>

theorem search_order:
  assumes "embeddings e = Some embs" and "embs \<noteq> []"
    and "length embs = length (patents e)"
    and "similarities = map (cosine_similarity L (model e query)) embs"
  shows "\<exists>idxs ranking results.
           search L e query top_k cf tk = Inr results
         \<and> results = map (\<lambda>i. with_score (patents e ! i) (similarities ! i)) idxs
         \<and> sorted_wrt (\<lambda>r s. similarity_score s \<le> similarity_score r) results
         \<and> distinct ranking
         \<and> set ranking = {i. i < length (patents e)
                             \<and> (\<forall>vs. apply_filters L e cf tk = Some vs \<longrightarrow> i \<in> set vs)}
         \<and> sorted_wrt (\<lambda>i j. similarities ! j \<le> similarities ! i) ranking
         \<and> prefix idxs ranking
         \<and> (1 \<le> top_k \<longrightarrow> idxs = take (nat top_k) ranking)"
proof -
  define ranking where "ranking = filter (\<lambda>i. \<not> skipped (apply_filters L e cf tk) i)
                                    (rev (argsort (argsort_tie L) similarities))"
  define idxs where "idxs = take (nat (max 1 top_k)) ranking"
  define results where "results = map (\<lambda>i. with_score (patents e ! i) (similarities ! i)) idxs"
  have n: "length similarities = length (patents e)"
    unfolding assms(4) using assms(3) by simp
  have s: "search L e query top_k cf tk = Inr results"
    unfolding results_def idxs_def ranking_def assms(4) using assms(1,2,3) by (rule search_eq)
  have d: "distinct ranking"
    using ranking_def by (rule ranking_properties(1))
  have m: "set ranking = {i. i < length (patents e)
                             \<and> (\<forall>vs. apply_filters L e cf tk = Some vs \<longrightarrow> i \<in> set vs)}"
    using ranking_properties(2) [OF ranking_def] unfolding n .
  have o: "sorted_wrt (\<lambda>i j. similarities ! j \<le> similarities ! i) ranking"
    using ranking_def by (rule ranking_properties(3))
  then have "sorted_wrt (\<lambda>i j. similarities ! j \<le> similarities ! i) idxs"
    unfolding idxs_def by (rule sorted_wrt_take)
  then have r: "sorted_wrt (\<lambda>r s. similarity_score s \<le> similarity_score r) results"
    unfolding results_def by (simp add: sorted_wrt_map similarity_score_with_score)
  have p: "prefix idxs ranking"
    unfolding idxs_def by (rule take_is_prefix)
  have k: "1 \<le> top_k \<longrightarrow> idxs = take (nat top_k) ranking"
    unfolding idxs_def by (simp add: max_def)
  from s results_def r d m o p k show ?thesis by blast
qed

theorem search_order_witness:
  "embeddings abc_engine = Some [[1, 0], [0, 1], [1, 0]]
   \<and> [[1, 0], [0, 1], [1::real, 0]] \<noteq> []
   \<and> length [[1, 0], [0, 1], [1::real, 0]] = length (patents abc_engine)
   \<and> search example_library abc_engine ''wheel'' 2 None None
       = Inr [with_score patent_C 1, with_score patent_A 1]"
proof -
  have h: "[[1, 0], [0, 1], [1::real, 0]] \<noteq> []"
    by simp
  from search_order [OF abc_embeddings h abc_length refl, of example_library "''wheel''" 2 None None]
  show ?thesis
    by (elim exE conjE) (intro conjI abc_embeddings h abc_length abc_search_2)
qed

text \<open>
  Claim C1 as stated promises ascending index order among equal scores. The code adds
  no tie-break to \<^verbatim>\<open>np.argsort\<close>, whose default kind leaves the order of equal
  values open. With the stable order, which is one of those it may give, the scenario
  of the specification (scores 1, 0, 1 for A, B, C and \<open>top_k = 2\<close>) returns C before
  A, where the claim asks for A before C.
\<close>

theorem search_tie_order_counterexample:
  "search example_library abc_engine ''wheel'' 2 None None
     = Inr [with_score patent_C 1, with_score patent_A 1]
   \<and> search example_library abc_engine ''wheel'' 2 None None
     \<noteq> Inr [with_score patent_A 1, with_score patent_C 1]
   \<and> patents abc_engine = [patent_A, patent_B, patent_C]
   \<and> take 2 (spec_ranking [1, 0, 1] [0, 1, 2]) = [0, 2]"
  by (simp add: search_def example_library_def abc_engine_def argsort_def apply_filters_def
        skipped_def upt_rec stable_tie_def Let_def with_score_def patent_A_def patent_C_def
        spec_ranking_def less_eq_prod_def)

section \<open>Top-k monotonicity\<close>

text \<open>
  Claim C9. On a corpus that is not empty and has one embedding per patent, for every
  \<open>k\<close> and every \<open>m\<close> that is not negative, both searches return, and the results
  for \<open>top_k = k\<close> are a prefix of the results for \<open>top_k = k + m\<close> under the same
  filters.
\<close>

theorem search_top_k_prefix:
  assumes "embeddings e = Some embs" and "length embs = length (patents e)"
    and "patents e \<noteq> []" and "0 \<le> m"
  shows "\<exists>results results'.
           search L e query k cf tk = Inr results
         \<and> search L e query (k + m) cf tk = Inr results'
         \<and> prefix results results'"
proof -
  let ?full = "map (\<lambda>i. with_score (patents e ! i)
                          (map (cosine_similarity L (model e query)) embs ! i))
     (filter (\<lambda>i. \<not> skipped (apply_filters L e cf tk) i)
        (rev (argsort (argsort_tie L) (map (cosine_similarity L (model e query)) embs))))"
  have ne: "embs \<noteq> []"
    using assms(2,3) by auto
  have a: "search L e query n cf tk = Inr (take (nat (max 1 n)) ?full)" for n
    by (subst search_eq [OF assms(1) ne assms(2)]) (simp only: take_map)
  have "nat (max 1 k) \<le> nat (max 1 (k + m))"
    using assms(4) by simp
  then have "take (nat (max 1 k)) (take (nat (max 1 (k + m))) ?full) = take (nat (max 1 k)) ?full"
    by (simp only: take_take min_absorb1)
  moreover have "prefix (take (nat (max 1 k)) (take (nat (max 1 (k + m))) ?full))
                   (take (nat (max 1 (k + m))) ?full)"
    by (rule take_is_prefix)
  ultimately have "prefix (take (nat (max 1 k)) ?full) (take (nat (max 1 (k + m))) ?full)"
    by simp
  with a [of k] a [of "k + m"] show ?thesis by blast
qed

theorem search_top_k_prefix_witness:
  "embeddings abc_engine = Some [[1, 0], [0, 1], [1, 0]]
   \<and> length [[1, 0], [0, 1], [1::real, 0]] = length (patents abc_engine)
   \<and> patents abc_engine \<noteq> []
   \<and> (0::int) \<le> 1
   \<and> search example_library abc_engine ''wheel'' 1 None None = Inr [with_score patent_C 1]
   \<and> search example_library abc_engine ''wheel'' (1 + 1) None None
       = Inr [with_score patent_C 1, with_score patent_A 1]
   \<and> prefix [with_score patent_C 1] [with_score patent_C 1, with_score patent_A 1]"
proof -
  have h3: "patents abc_engine \<noteq> []"
    by (simp add: abc_engine_def)
  have h4: "(0::int) \<le> 1" by simp
  have ev2: "search example_library abc_engine ''wheel'' (1 + 1) None None
       = Inr [with_score patent_C 1, with_score patent_A 1]"
    using abc_search_2 by simp
  have ev3: "prefix [with_score patent_C 1] [with_score patent_C 1, with_score patent_A 1]"
    by simp
  from search_top_k_prefix [OF abc_embeddings abc_length h3 h4,
         of example_library "''wheel''" 1 None None]
  show ?thesis
    by (elim exE conjE) (intro conjI abc_embeddings abc_length h3 h4 abc_search_1 ev2 ev3)
qed

section \<open>A top_k that is not positive\<close>

text \<open>
  Claim C3 at \<open>top_k = 0\<close>: the search over the three documents returns one result,
  not the empty sequence, since the first admissible patent is appended before the
  length is compared with \<open>top_k\<close>. Whatever order \<^verbatim>\<open>np.argsort\<close> gives to the
  equal scores of A and C, the result is one of the two.
\<close>

theorem search_top_k_zero:
  "search (example_library\<lparr>argsort_tie := tie\<rparr>) abc_engine ''wheel'' 0 None None
     = Inr [with_score (if tie [1, 0, 1] 0 \<le> tie [1, 0, 1] 2 then patent_C else patent_A) 1]"
  by (simp add: search_def example_library_def abc_engine_def argsort_def apply_filters_def
        skipped_def upt_rec less_eq_prod_def Let_def numeral_2_eq_2)

section \<open>Search without embeddings\<close>

text \<open>
  Claim C6. Without embeddings \<open>search\<close> fails with the error for missing embeddings,
  which is not the empty result; with embeddings present it never returns that error.
\<close>

theorem search_no_embeddings:
  "(embeddings e = None \<longrightarrow> search L e query top_k cf tk = Inl NoEmbeddingsError
       \<and> search L e query top_k cf tk \<noteq> Inr [])
   \<and> (embeddings e \<noteq> None \<longrightarrow> search L e query top_k cf tk \<noteq> Inl NoEmbeddingsError)"
  by (auto simp: search_def Let_def search_loop_not_no_embeddings split: if_splits)

theorem search_no_embeddings_witness:
  "embeddings unloaded_engine = None
   \<and> search example_library unloaded_engine ''wheel'' 5 None None = Inl NoEmbeddingsError
   \<and> embeddings abc_engine \<noteq> None
   \<and> search example_library abc_engine ''wheel'' 5 None None \<noteq> Inl NoEmbeddingsError"
  using search_no_embeddings [of unloaded_engine example_library "''wheel''" 5 None None]
    search_no_embeddings [of abc_engine example_library "''wheel''" 5 None None]
  by (simp add: unloaded_engine_def abc_engine_def)

section \<open>A document number that is not in the corpus\<close>

text \<open>
  Claim C2, as the code has it. When no patent carries the document number,
  \<open>search_by_patent_id\<close> returns the empty result sequence and raises nothing,
  whether or not embeddings are loaded; the miss is reported as an ordinary empty
  result.
\<close>

theorem search_by_patent_id_not_found:
  assumes "X \<notin> document_number ` set (patents e)"
  shows "search_by_patent_id L e X top_k = Inr []"
  using assms by (simp add: search_by_patent_id_def find_reference_None [symmetric])

theorem search_by_patent_id_not_found_witness:
  "''Z'' \<notin> document_number ` set (patents unloaded_engine)
   \<and> search_by_patent_id example_library unloaded_engine ''Z'' 5 = Inr []"
proof -
  have h: "''Z'' \<notin> document_number ` set (patents unloaded_engine)"
    by (simp add: unloaded_engine_def patent_A_def patent_B_def patent_C_def)
  from search_by_patent_id_not_found [OF h, of example_library 5] h show ?thesis by simp
qed

text \<open>
  Claim C2 as stated fails: for the document number Z, which the three-document
  corpus does not contain, the call returns the empty list and no error.
\<close>

theorem search_by_patent_id_not_found_counterexample:
  "''Z'' \<notin> document_number ` set (patents abc_engine)
   \<and> search_by_patent_id example_library abc_engine ''Z'' 5 = Inr []
   \<and> \<not> isl (search_by_patent_id example_library abc_engine ''Z'' 5)"
  by (simp add: search_by_patent_id_def abc_engine_def patent_A_def patent_B_def patent_C_def)

section \<open>Self-exclusion\<close>

text \<open>
  Claim C4. On a corpus with one embedding per patent, \<open>search_by_patent_id\<close> for
  the document number \<open>X\<close> returns a sequence in which no result has the document
  number \<open>X\<close>, whatever the number of patents that carry it, and the sequence has
  at most \<open>top_k\<close> entries (none when \<open>top_k\<close> is negative).
\<close>

theorem search_by_patent_id_excludes:
  assumes "embeddings e = Some embs" and "length embs = length (patents e)"
  shows "\<exists>results. search_by_patent_id L e X top_k = Inr results
           \<and> (\<forall>r \<in> set results. document_number r \<noteq> X)
           \<and> length results \<le> nat top_k"
proof (cases "find_reference (patents e) X")
  case None
  then have "search_by_patent_id L e X top_k = Inr []"
    by (simp add: search_by_patent_id_def)
  then show ?thesis by simp
next
  case (Some p)
  then have "patents e \<noteq> []"
    by (rule find_reference_Some_nonempty)
  then have ne: "embs \<noteq> []"
    using assms(2) by auto
  obtain candidates where c: "search L e (searchable_text p) (top_k + 1) None None = Inr candidates"
    using search_eq [OF assms(1) ne assms(2), of L "searchable_text p" "top_k + 1" None None]
    by (rule that)
  define results where "results = slice_to (filter (\<lambda>r. document_number r \<noteq> X) candidates) top_k"
  from c have "length candidates \<le> nat (max 1 (top_k + 1))"
    by (rule search_length)
  then have p: "(\<forall>r \<in> set results. document_number r \<noteq> X) \<and> length results \<le> nat top_k"
    unfolding results_def by (rule slice_to_filter)
  have "search_by_patent_id L e X top_k = Inr results"
    unfolding results_def using Some c by (simp add: search_by_patent_id_def)
  with p show ?thesis by blast
qed

theorem search_by_patent_id_excludes_witness:
  "embeddings abc_engine = Some [[1, 0], [0, 1], [1, 0]]
   \<and> length [[1, 0], [0, 1], [1::real, 0]] = length (patents abc_engine)
   \<and> search_by_patent_id example_library abc_engine ''A'' 1 = Inr [with_score patent_C 1]
   \<and> document_number (with_score patent_C 1) \<noteq> ''A''
   \<and> length [with_score patent_C 1] \<le> nat 1"
proof -
  have ev1: "document_number (with_score patent_C 1) \<noteq> ''A''"
    by (simp add: with_score_def patent_C_def)
  have ev2: "length [with_score patent_C 1] \<le> nat 1"
    by simp
  from search_by_patent_id_excludes [OF abc_embeddings abc_length, of example_library "''A''" 1]
  show ?thesis
    by (elim exE conjE) (intro conjI abc_embeddings abc_length abc_search_by_A ev1 ev2)
qed

section \<open>Filters\<close>



section \<open>Statistics of a result list\<close>

text \<open>
  Claim C8. For the empty list \<open>get_search_statistics\<close> returns the dictionary
  whose only key is the count, with value zero, and \<^verbatim>\<open>np.mean\<close> is not called;
  for a list that is not empty it returns the count with the value of
  \<^verbatim>\<open>np.mean\<close> on the similarity scores, their maximum and their minimum.
\<close>

theorem get_search_statistics_spec:
  "get_search_statistics L [] = [''count'' \<mapsto> PyInt 0]
   \<and> dom (get_search_statistics L []) = {''count''}
   \<and> (results \<noteq> [] \<longrightarrow>
        get_search_statistics L results =
          [''count'' \<mapsto> PyInt (int (length results)),
           ''avg_similarity'' \<mapsto> PyFloat (np_mean L (map similarity_score results)),
           ''max_similarity'' \<mapsto> PyFloat (Max (similarity_score ` set results)),
           ''min_similarity'' \<mapsto> PyFloat (Min (similarity_score ` set results))])"
proof (intro conjI impI)
  show e: "get_search_statistics L [] = [''count'' \<mapsto> PyInt 0]"
    by (simp add: get_search_statistics_def)
  show "dom (get_search_statistics L []) = {''count''}"
    unfolding e by simp
next
  assume "results \<noteq> []"
  then obtain r rs where r: "results = r # rs"
    by (cases results) auto
  have m: "foldl max (similarity_score r) (map similarity_score rs)
             = Max (similarity_score ` set results)"
    unfolding r foldl_max by simp
  have n: "foldl min (similarity_score r) (map similarity_score rs)
             = Min (similarity_score ` set results)"
    unfolding r foldl_min by simp
  have a: "np_mean L (similarity_score r # map similarity_score rs)
             = np_mean L (map similarity_score results)"
    unfolding r by simp
  have l: "int (length (r # rs)) = int (length results)"
    unfolding r by simp
  have "get_search_statistics L (r # rs) =
          [''count'' \<mapsto> PyInt (int (length (r # rs))),
           ''avg_similarity'' \<mapsto> PyFloat (np_mean L (similarity_score r # map similarity_score rs)),
           ''max_similarity'' \<mapsto> PyFloat (foldl max (similarity_score r) (map similarity_score rs)),
           ''min_similarity'' \<mapsto> PyFloat (foldl min (similarity_score r) (map similarity_score rs))]"
    by (simp add: get_search_statistics_def)
  then show "get_search_statistics L results =
          [''count'' \<mapsto> PyInt (int (length results)),
           ''avg_similarity'' \<mapsto> PyFloat (np_mean L (map similarity_score results)),
           ''max_similarity'' \<mapsto> PyFloat (Max (similarity_score ` set results)),
           ''min_similarity'' \<mapsto> PyFloat (Min (similarity_score ` set results))]"
    unfolding m n a l unfolding r [symmetric] .
qed

theorem get_search_statistics_spec_witness:
  "[with_score patent_C 1, with_score patent_B 0] \<noteq> []
   \<and> get_search_statistics example_library [with_score patent_C 1, with_score patent_B 0] =
       [''count'' \<mapsto> PyInt 2, ''avg_similarity'' \<mapsto> PyFloat (1 / 2),
        ''max_similarity'' \<mapsto> PyFloat 1, ''min_similarity'' \<mapsto> PyFloat 0]"
proof -
  have h: "[with_score patent_C 1, with_score patent_B 0] \<noteq> []"
    by simp
  from get_search_statistics_spec [of example_library "[with_score patent_C 1, with_score patent_B 0]",
         THEN conjunct2, THEN conjunct2, rule_format, OF h]
  show ?thesis
    using h two_results_statistics by (intro conjI)
qed

section \<open>Shortfall under duplicate document numbers\<close>

text \<open>
  Claim C10. There is a corpus with at least \<open>top_k\<close> patents of another document
  number on which \<open>search_by_patent_id\<close> returns fewer than \<open>top_k\<close> results;
  and whenever two or more of the \<open>top_k + 1\<close> candidates that \<open>search\<close> returns
  carry the document number asked for, fewer than \<open>top_k\<close> results remain.
\<close>

theorem search_by_patent_id_shortfall:
  "(\<exists>L e X top_k results.
       nat top_k \<le> length (filter (\<lambda>p. document_number p \<noteq> X) (patents e))
     \<and> search_by_patent_id L e X top_k = Inr results
     \<and> int (length results) < top_k)
   \<and> (\<forall>L e X top_k p candidates.
        find_reference (patents e) X = Some p \<longrightarrow>
        search L e (searchable_text p) (top_k + 1) None None = Inr candidates \<longrightarrow>
        2 \<le> length (filter (\<lambda>r. document_number r = X) candidates) \<longrightarrow>
        (\<exists>results. search_by_patent_id L e X top_k = Inr results
                  \<and> int (length results) < top_k))"
proof (rule conjI)
  have "nat 1 \<le> length (filter (\<lambda>p. document_number p \<noteq> ''A'') (patents twin_engine))
     \<and> search_by_patent_id example_library twin_engine ''A'' 1 = Inr []
     \<and> int (length ([] :: search_result list)) < 1"
    using twin_others twin_search_by_A by simp
  then show "\<exists>L e X top_k results.
       nat top_k \<le> length (filter (\<lambda>p. document_number p \<noteq> X) (patents e))
     \<and> search_by_patent_id L e X top_k = Inr results
     \<and> int (length results) < top_k"
    by blast
next
  show "\<forall>L e X top_k p candidates.
        find_reference (patents e) X = Some p \<longrightarrow>
        search L e (searchable_text p) (top_k + 1) None None = Inr candidates \<longrightarrow>
        2 \<le> length (filter (\<lambda>r. document_number r = X) candidates) \<longrightarrow>
        (\<exists>results. search_by_patent_id L e X top_k = Inr results
                  \<and> int (length results) < top_k)"
    by (intro allI impI) (rule shortfall_step)
qed

theorem search_by_patent_id_shortfall_witness:
  "find_reference (patents twin_engine) ''A'' = Some patent_A
   \<and> search example_library twin_engine (searchable_text patent_A) (1 + 1) None None
       = Inr [with_score patent_A2 1, with_score patent_A 1]
   \<and> 2 \<le> length (filter (\<lambda>r. document_number r = ''A'')
                    [with_score patent_A2 1, with_score patent_A 1])
   \<and> nat 1 \<le> length (filter (\<lambda>p. document_number p \<noteq> ''A'') (patents twin_engine))
   \<and> search_by_patent_id example_library twin_engine ''A'' 1 = Inr []"
proof -
  have h1: "find_reference (patents twin_engine) ''A'' = Some patent_A"
    by (simp add: twin_engine_def patent_A_def)
  have h3: "2 \<le> length (filter (\<lambda>r. document_number r = ''A'')
                    [with_score patent_A2 1, with_score patent_A 1])"
    by (simp add: with_score_def patent_A_def patent_A2_def)
  from search_by_patent_id_shortfall [THEN conjunct2, rule_format, OF h1 twin_candidates h3]
  show ?thesis
    by (elim exE conjE) (intro conjI h1 twin_candidates h3 twin_others twin_search_by_A)
qed

end
